theory Spec2Isabelle
  imports Main "HOL-Library.Char_ord" "HOL-Library.List_Lexorder" "HOL-Library.AList"
begin

section \<open>Course planner: shared data model and string helpers\<close>

text \<open>
  The repository holds four versions of one course-planner program: the original list
  version and the hash-map version (both in \<^verbatim>\<open>original.cpp\<close>), the binary-search-tree
  version (\<^verbatim>\<open>artifact2.cpp\<close>) and the SQLite version (\<^verbatim>\<open>part3.cpp\<close>). Functions
  that exist in several versions under one name carry a suffix here:
  \<open>_list\<close>, \<open>_map\<close>, \<open>_bst\<close>, \<open>_db\<close>.
\<close>

record Course =
  courseNumber :: string
  title :: string
  prerequisites :: "string list"

subsection \<open>Character classes of the "C" locale\<close>

text \<open>
  \<^verbatim>\<open>std::isspace\<close> and \<^verbatim>\<open>std::toupper\<close> are applied to the byte as
  \<^verbatim>\<open>unsigned char\<close>; no version of the program changes the locale, so the "C" locale
  applies: six whitespace bytes, and only \<^verbatim>\<open>a..z\<close> are changed by upper-casing.
\<close>

definition isspace :: "char \<Rightarrow> bool" where
  "isspace c = (c = CHR 0x20 \<or> c = CHR 0x09 \<or> c = CHR 0x0A \<or> c = CHR 0x0B
                \<or> c = CHR 0x0C \<or> c = CHR 0x0D)"

definition toupper :: "char \<Rightarrow> char" where
  "toupper c = (let n = (of_char c :: nat)
                in if 97 \<le> n \<and> n \<le> 122 then char_of (n - 32) else c)"

subsection \<open>trim and toUpper\<close>

text \<open>The two index loops of \<^verbatim>\<open>trim\<close>, then \<^verbatim>\<open>substr(start, end - start)\<close>.\<close>

function trim_start :: "string \<Rightarrow> nat \<Rightarrow> nat" where
  "trim_start s start =
     (if start < length s \<and> isspace (s ! start) then trim_start s (Suc start) else start)"
  by pat_completeness auto
termination
  by (relation "measure (\<lambda>(s, start). length s - start)") auto

declare trim_start.simps [simp del]

function trim_end :: "string \<Rightarrow> nat \<Rightarrow> nat \<Rightarrow> nat" where
  "trim_end s start e =
     (if e > start \<and> isspace (s ! (e - 1)) then trim_end s start (e - 1) else e)"
  by pat_completeness auto
termination
  by (relation "measure (\<lambda>(s, start, e). e)") auto

declare trim_end.simps [simp del]

definition substr :: "string \<Rightarrow> nat \<Rightarrow> nat \<Rightarrow> string" where
  "substr s pos n = take n (drop pos s)"

definition trim :: "string \<Rightarrow> string" where
  "trim s = (let start = trim_start s 0;
                 e = trim_end s start (length s)
             in substr s start (e - start))"

definition toUpper :: "string \<Rightarrow> string" where
  "toUpper s = map toupper s"

definition normalizeCourseNumber :: "string \<Rightarrow> string" where
  "normalizeCourseNumber s = toUpper (trim s)"


subsection \<open>Input streams and \<^verbatim>\<open>std::getline\<close>\<close>

text \<open>
  A stream is the text not yet read together with the flag \<^verbatim>\<open>good()\<close>. A file
  system maps a file name to the contents of the file, or to \<open>None\<close> when the file
  cannot be opened.

  \<^verbatim>\<open>std::getline(is, str, delim)\<close>: when the stream is not good the call fails at
  once. Otherwise characters are taken up to the delimiter, which is consumed and not
  stored. When the end of the text is reached first, \<^verbatim>\<open>eofbit\<close> is set, and the call
  fails exactly when nothing at all was extracted. The first component of the result is
  the truth value of the returned stream. On failure the string component is empty: every
  caller that ignores the result passes a freshly constructed string.
\<close>

type_synonym istream = "string \<times> bool"

type_synonym filesystem = "string \<Rightarrow> string option"

definition getline :: "istream \<Rightarrow> char \<Rightarrow> bool \<times> string \<times> istream" where
  "getline strm delim =
     (case strm of (buf, good) \<Rightarrow>
        if \<not> good then (False, [], strm)
        else let field = takeWhile (\<lambda>c. c \<noteq> delim) buf;
                 rest = dropWhile (\<lambda>c. c \<noteq> delim) buf
             in if rest = [] then (field \<noteq> [], field, ([], False))
                else (True, field, (tl rest, True)))"

text \<open>
  The loop \<^verbatim>\<open>while (std::getline(is, str, delim)) { ... }\<close>, whose body never touches
  the stream it reads from: the strings handed to the body, in order.
\<close>

function getlines :: "istream \<Rightarrow> char \<Rightarrow> string list" where
  "getlines strm delim =
     (case getline strm delim of
        (ok, str, strm') \<Rightarrow> if ok then str # getlines strm' delim else [])"
  by pat_completeness auto
termination
proof (relation "measure (\<lambda>(strm, delim). if snd strm then Suc (length (fst strm)) else 0)")
  show "wf (measure (\<lambda>(strm, delim). if snd strm then Suc (length (fst strm)) else 0))"
    by simp
next
  fix strm :: istream and delim :: char and ok :: bool and y :: "string \<times> istream"
    and str :: string and strm' :: istream
  assume a: "(ok, y) = getline strm delim" "(str, strm') = y" "ok"
  obtain buf good where s: "strm = (buf, good)" by (cases strm)
  have "length (tl rest) < length buf"
    if "rest = dropWhile (\<lambda>c. c \<noteq> delim) buf" "rest \<noteq> []" for rest
  proof -
    from that(2) have "length (tl rest) < length rest" by (cases rest) simp_all
    also from that(1) have "\<dots> \<le> length buf" by (simp add: length_dropWhile_le)
    finally show ?thesis .
  qed
  then have "delim \<in> set buf \<Longrightarrow>
             length (tl (dropWhile (\<lambda>c. c \<noteq> delim) buf)) < length buf"
    by auto
  with a s
  show "((strm', delim), (strm, delim))
        \<in> measure (\<lambda>(strm, delim). if snd strm then Suc (length (fst strm)) else 0)"
    by (auto simp: getline_def Let_def split: if_splits)
qed

declare getlines.simps [simp del]

section \<open>Hash-map version (\<^verbatim>\<open>original.cpp\<close>, second program)\<close>

text \<open>
  \<^verbatim>\<open>std::unordered_map<std::string, Course>\<close> is an association list with one entry
  per key; \<^verbatim>\<open>temp[courseNumber] = c\<close> is \<^const>\<open>AList.update\<close>. The order of the
  entries stands for the unspecified iteration order of the hash map.
\<close>

type_synonym course_map = "(string \<times> Course) list"

text \<open>
  The body of the reading loop of \<^verbatim>\<open>loadCoursesFromCsv\<close>: \<open>None\<close> where the
  source says \<^verbatim>\<open>continue\<close>, otherwise the record that is stored.
\<close>

definition parseLine_map :: "string \<Rightarrow> Course option" where
  "parseLine_map line0 =
     (let line = trim line0 in
      if line = [] then None
      else let (ok1, courseNumber0, ss1) = getline (line, True) CHR '','' in
        if \<not> ok1 then None
        else let (ok2, title0, ss2) = getline ss1 CHR '','' in
          if \<not> ok2 then None
          else let courseNumber1 = toUpper (trim courseNumber0);
                   title1 = trim title0
               in if courseNumber1 = [] \<or> title1 = [] then None
                  else Some \<lparr>courseNumber = courseNumber1, title = title1,
                         prerequisites =
                           filter (\<lambda>prereq. prereq \<noteq> [])
                             (map (\<lambda>prereq. toUpper (trim prereq)) (getlines ss2 CHR '',''))\<rparr>)"

definition storeLine_map :: "course_map \<Rightarrow> string \<Rightarrow> course_map" where
  "storeLine_map temp line =
     (case parseLine_map line of
        None \<Rightarrow> temp
      | Some c \<Rightarrow> AList.update (courseNumber c) c temp)"

definition loadCoursesFromCsv_map ::
    "filesystem \<Rightarrow> string \<Rightarrow> course_map \<Rightarrow> bool \<times> course_map" where
  "loadCoursesFromCsv_map fs fileName coursesOut =
     (case fs fileName of
        None \<Rightarrow> (False, coursesOut)
      | Some content \<Rightarrow>
          (True, foldl storeLine_map [] (getlines (content, True) CHR 0x0A)))"

definition courseLine :: "Course \<Rightarrow> string" where
  "courseLine c = courseNumber c @ '', '' @ title c @ [CHR 0x0A]"

text \<open>
  \<^verbatim>\<open>printCourseList\<close> collects the keys, sorts them and prints the record that
  \<^verbatim>\<open>courses.at(key)\<close> returns for each. \<open>all_sorted_map\<close> is the sequence of records
  it visits; \<open>None\<close> stands for the \<^verbatim>\<open>std::out_of_range\<close> that \<^verbatim>\<open>at\<close> throws for a
  missing key.
\<close>

definition all_sorted_map :: "course_map \<Rightarrow> Course list option" where
  "all_sorted_map courses = those (map (map_of courses) (sort (map fst courses)))"

definition printCourseList_map :: "course_map \<Rightarrow> string option" where
  "printCourseList_map courses =
     map_option (\<lambda>cs. concat (map courseLine cs)) (all_sorted_map courses)"

text \<open>The printing loop over \<^verbatim>\<open>c.prerequisites\<close>, by index.\<close>

function printPrerequisites :: "string list \<Rightarrow> nat \<Rightarrow> string" where
  "printPrerequisites ps i =
     (if i < length ps
      then ps ! i @ (if i + 1 < length ps then '', '' else []) @ printPrerequisites ps (i + 1)
      else [])"
  by pat_completeness auto
termination
  by (relation "measure (\<lambda>(ps, i). length ps - i)") auto

declare printPrerequisites.simps [simp del]

definition printDetails :: "Course \<Rightarrow> string" where
  "printDetails c =
     courseNumber c @ '', '' @ title c @ [CHR 0x0A] @ ''Prerequisites: '' @
     (if prerequisites c = [] then ''None'' @ [CHR 0x0A]
      else printPrerequisites (prerequisites c) 0 @ [CHR 0x0A])"

definition printCourseDetails_map :: "course_map \<Rightarrow> string \<Rightarrow> string" where
  "printCourseDetails_map courses courseNumber0 =
     (case map_of courses (toUpper (trim courseNumber0)) of
        None \<Rightarrow> ''Error: Course not found'' @ [CHR 0x0A]
      | Some c \<Rightarrow> printDetails c)"

section \<open>Binary-search-tree version (\<^verbatim>\<open>artifact2.cpp\<close>)\<close>

text \<open>A \<^verbatim>\<open>Node*\<close> is either \<^verbatim>\<open>nullptr\<close> or points to a node owning its two children.\<close>

datatype node_ptr = nullptr | Node (data: Course) (left: node_ptr) (right: node_ptr)

fun insert_bst :: "node_ptr \<Rightarrow> Course \<Rightarrow> node_ptr" where
  "insert_bst nullptr course = Node course nullptr nullptr"
| "insert_bst (Node d l r) course =
     (if courseNumber course < courseNumber d then Node d (insert_bst l course) r
      else if courseNumber course > courseNumber d then Node d l (insert_bst r course)
      else Node course l r)"

fun search_bst :: "node_ptr \<Rightarrow> string \<Rightarrow> Course option" where
  "search_bst nullptr key = None"
| "search_bst (Node d l r) key =
     (if key = courseNumber d then Some d
      else if key < courseNumber d then search_bst l key
      else search_bst r key)"

fun inOrderPrint :: "node_ptr \<Rightarrow> string" where
  "inOrderPrint nullptr = []"
| "inOrderPrint (Node d l r) = inOrderPrint l @ courseLine d @ inOrderPrint r"

text \<open>The records in the order in which \<^verbatim>\<open>inOrderPrint\<close> visits them.\<close>

fun inOrder :: "node_ptr \<Rightarrow> Course list" where
  "inOrder nullptr = []"
| "inOrder (Node d l r) = inOrder l @ d # inOrder r"

text \<open>\<^verbatim>\<open>clear\<close> frees every node and resets the root.\<close>

definition clear_bst :: "node_ptr \<Rightarrow> node_ptr" where
  "clear_bst root = nullptr"

definition parseLine_bst :: "string \<Rightarrow> Course option" where
  "parseLine_bst line0 =
     (let line = trim line0 in
      if line = [] then None
      else let (ok1, courseNumber0, ss1) = getline (line, True) CHR '','' in
        if \<not> ok1 then None
        else let (ok2, title0, ss2) = getline ss1 CHR '','' in
          if \<not> ok2 then None
          else Some \<lparr>courseNumber = normalizeCourseNumber courseNumber0, title = trim title0,
                 prerequisites =
                   filter (\<lambda>prereq. prereq \<noteq> [])
                     (map normalizeCourseNumber (getlines ss2 CHR '',''))\<rparr>)"

definition storeLine_bst :: "node_ptr \<Rightarrow> string \<Rightarrow> node_ptr" where
  "storeLine_bst root line =
     (case parseLine_bst line of
        None \<Rightarrow> root
      | Some c \<Rightarrow> insert_bst root c)"

definition loadCoursesFromCsv_bst ::
    "filesystem \<Rightarrow> string \<Rightarrow> node_ptr \<Rightarrow> bool \<times> node_ptr" where
  "loadCoursesFromCsv_bst fs fileName bstOut =
     (case fs fileName of
        None \<Rightarrow> (False, bstOut)
      | Some content \<Rightarrow>
          (True, foldl storeLine_bst (clear_bst bstOut) (getlines (content, True) CHR 0x0A)))"

definition printCourseDetails_bst :: "node_ptr \<Rightarrow> string \<Rightarrow> string" where
  "printCourseDetails_bst bst courseNumber0 =
     (case search_bst bst (normalizeCourseNumber courseNumber0) of
        None \<Rightarrow> ''Error: Course not found'' @ [CHR 0x0A]
      | Some c \<Rightarrow> printDetails c)"

section \<open>Original list version (\<^verbatim>\<open>original.cpp\<close>, first program)\<close>

text \<open>
  \<^verbatim>\<open>openFile\<close> ends the process with status 1 when the file cannot be opened
  (\<open>Inl 1\<close>); otherwise it returns the stream.
\<close>

definition openFile :: "filesystem \<Rightarrow> string \<Rightarrow> int + istream" where
  "openFile fs fileName =
     (case fs fileName of None \<Rightarrow> Inl 1 | Some content \<Rightarrow> Inr (content, True))"

definition parseLine_list :: "string \<Rightarrow> Course" where
  "parseLine_list line =
     (let (ok1, courseNumber0, ss1) = getline (line, True) CHR '','';
          (ok2, title0, ss2) = getline ss1 CHR '',''
      in \<lparr>courseNumber = courseNumber0, title = title0,
           prerequisites = getlines ss2 CHR '',''\<rparr>)"

definition parseFile :: "istream \<Rightarrow> Course list" where
  "parseFile file = map parseLine_list (getlines file CHR 0x0A)"

fun searchCourse :: "string \<Rightarrow> Course list \<Rightarrow> string" where
  "searchCourse key [] = ''Error: Course not found'' @ [CHR 0x0A]"
| "searchCourse key (course # courses) =
     (if courseNumber course = key
      then courseNumber course @ '', '' @ title course @ [CHR 0x0A] @ ''Prerequisites: '' @
           (if prerequisites course = [] then ''None'' @ [CHR 0x0A]
            else concat (map (\<lambda>prereq. prereq @ '' '') (prerequisites course)) @ [CHR 0x0A])
      else searchCourse key courses)"

section \<open>Menu loop of the hash-map version\<close>

text \<open>
  \<^verbatim>\<open>std::stoi\<close>: leading whitespace, an optional sign, then decimal digits; whatever
  follows the digits is ignored. \<open>None\<close> stands for the exception it throws
  (\<^verbatim>\<open>std::invalid_argument\<close> without a digit, \<^verbatim>\<open>std::out_of_range\<close> outside \<^verbatim>\<open>int\<close>).
\<close>

definition isdigit :: "char \<Rightarrow> bool" where
  "isdigit c = (48 \<le> (of_char c :: nat) \<and> (of_char c :: nat) \<le> 57)"

definition stoi :: "string \<Rightarrow> int option" where
  "stoi str =
     (let s1 = dropWhile isspace str;
          (neg, s2) = (case s1 of
                         [] \<Rightarrow> (False, [])
                       | c # cs \<Rightarrow> if c = CHR ''-'' then (True, cs)
                                  else if c = CHR ''+'' then (False, cs)
                                  else (False, s1));
          ds = takeWhile isdigit s2
      in if ds = [] then None
         else let v = foldl (\<lambda>acc d. 10 * acc + (int (of_char d) - 48)) 0 ds;
                  r = (if neg then - v else v)
              in if - 2147483648 \<le> r \<and> r \<le> 2147483647 then Some r else None)"

text \<open>Decimal output of an \<^verbatim>\<open>int\<close> by \<^verbatim>\<open>operator<<\<close>.\<close>

function show_nat :: "nat \<Rightarrow> string" where
  "show_nat n =
     (if n < 10 then [char_of (48 + n)]
      else show_nat (n div 10) @ [char_of (48 + n mod 10)])"
  by pat_completeness auto
termination
  by (relation "measure id") auto

declare show_nat.simps [simp del]

definition show_int :: "int \<Rightarrow> string" where
  "show_int i = (if i < 0 then CHR ''-'' # show_nat (nat (- i)) else show_nat (nat i))"

definition menuText :: string where
  "menuText = [CHR 0x0A] @ ''1. Load Data Structure.'' @ [CHR 0x0A]
     @ ''2. Print Course List.'' @ [CHR 0x0A]
     @ ''3. Print Course.'' @ [CHR 0x0A]
     @ ''9. Exit'' @ [CHR 0x0A]
     @ ''What would you like to do? ''"

text \<open>
  \<^verbatim>\<open>displayMenu\<close> returns the choice; the model also returns the rest of standard
  input and the text written.
\<close>

definition displayMenu :: "istream \<Rightarrow> int \<times> istream \<times> string" where
  "displayMenu cin0 =
     (let (ok, input0, cin1) = getline cin0 CHR 0x0A;
          input = trim input0
      in (if input = [] then - 1
          else case stoi input of None \<Rightarrow> - 1 | Some n \<Rightarrow> n,
          cin1, menuText))"

record state_map =
  courses :: course_map
  dataLoaded :: bool
  cin :: istream
  cout :: string

text \<open>
  One pass through the body of \<^verbatim>\<open>while (true)\<close> in \<^verbatim>\<open>main\<close>: the loop goes on
  (\<open>Continue\<close>), \<^verbatim>\<open>main\<close> returns (\<open>Return\<close>), or an exception leaves \<^verbatim>\<open>main\<close> and the
  process is terminated (\<open>Terminate\<close>).
\<close>

datatype 'a outcome = Continue 'a | Return int 'a | Terminate

definition main_iteration_map :: "filesystem \<Rightarrow> state_map \<Rightarrow> state_map outcome" where
  "main_iteration_map fs st =
     (let (choice, cin1, out1) = displayMenu (cin st);
          st1 = st\<lparr>cin := cin1, cout := cout st @ out1\<rparr>
      in if choice = 1 then
           (let (ok, filename, cin2) = getline cin1 CHR 0x0A;
                (loaded, courses') = loadCoursesFromCsv_map fs filename (courses st)
            in if \<not> loaded
               then Continue (st1\<lparr>cin := cin2, dataLoaded := False, courses := courses',
                      cout := cout st1 @ ''Enter file name: ''
                        @ ''Error: File not found or could not be opened'' @ [CHR 0x0A]\<rparr>)
               else Continue (st1\<lparr>cin := cin2, dataLoaded := True, courses := courses',
                      cout := cout st1 @ ''Enter file name: ''
                        @ ''Data loaded successfully.'' @ [CHR 0x0A]\<rparr>))
         else if choice = 2 then
           (if \<not> dataLoaded st
            then Continue (st1\<lparr>cout := cout st1
                   @ ''Please load data first using option 1.'' @ [CHR 0x0A]\<rparr>)
            else case printCourseList_map (courses st) of
                   None \<Rightarrow> Terminate
                 | Some listing \<Rightarrow>
                     Continue (st1\<lparr>cout := cout st1
                       @ ''Here is a sample schedule:'' @ [CHR 0x0A] @ listing\<rparr>))
         else if choice = 3 then
           (if \<not> dataLoaded st
            then Continue (st1\<lparr>cout := cout st1
                   @ ''Please load data first using option 1.'' @ [CHR 0x0A]\<rparr>)
            else let (ok, courseNumber0, cin2) = getline cin1 CHR 0x0A
                 in Continue (st1\<lparr>cin := cin2, cout := cout st1
                      @ ''What course do you want to know about? ''
                      @ printCourseDetails_map (courses st) courseNumber0\<rparr>))
         else if choice = 9 then
           Return 0 (st1\<lparr>cout := cout st1
             @ ''Thank you for using the course planner!'' @ [CHR 0x0A]\<rparr>)
         else Continue (st1\<lparr>cout := cout st1 @ show_int choice
                @ '' is not a valid option.'' @ [CHR 0x0A]\<rparr>))"

section \<open>Loading in the original list version\<close>

text \<open>
  \<^verbatim>\<open>file = openFile(filename); courses = parseFile(file);\<close> as \<^verbatim>\<open>main\<close> runs it at
  start-up and for menu choice 1: \<open>Inl code\<close> when \<^verbatim>\<open>openFile\<close> has ended the process.
\<close>

definition main_load_list :: "filesystem \<Rightarrow> string \<Rightarrow> int + Course list" where
  "main_load_list fs filename =
     (case openFile fs filename of
        Inl code \<Rightarrow> Inl code
      | Inr file \<Rightarrow> Inr (parseFile file))"

section \<open>SQLite version (\<^verbatim>\<open>part3.cpp\<close>)\<close>

text \<open>
  The database holds the two tables of \<^verbatim>\<open>createSchema\<close>:
  \<^verbatim>\<open>courses(course_number PRIMARY KEY, title)\<close> and
  \<^verbatim>\<open>prerequisites(course_number, prereq_number)\<close> with both columns as primary key and
  a foreign key to \<^verbatim>\<open>courses\<close> that cascades on delete. The loader issues four kinds of
  statement, which \<^verbatim>\<open>Database::execute\<close> hands to \<^verbatim>\<open>sqlite3_exec\<close>; the result says
  whether SQLite accepted the statement, and a statement that fails changes nothing.

  The text of an insertion is built by splicing the fields between apostrophes and is
  passed as a C string. It is the intended statement only when no field contains an
  apostrophe or a NUL byte. With such a field the text is something else (a doubled
  apostrophe is an escaped one, a single one ends the literal early and what follows is
  read as SQL, a NUL byte cuts the text short). What SQLite does then is not modelled:
  \<open>execute\<close> returns \<open>None\<close>, and so does every loop that reaches such a statement.
\<close>

record database =
  courses_table :: "(string \<times> string) list"
  prerequisites_table :: "(string \<times> string) list"

datatype statement =
    DeleteFromPrerequisites
  | DeleteFromCourses
  | InsertOrReplaceCourse string string
  | InsertPrerequisite string string

definition sql_literal :: "string \<Rightarrow> bool" where
  "sql_literal s = (CHR 0x27 \<notin> set s \<and> CHR 0x00 \<notin> set s)"

fun execute :: "database \<Rightarrow> statement \<Rightarrow> (bool \<times> database) option" where
  "execute db DeleteFromPrerequisites = Some (True, db\<lparr>prerequisites_table := []\<rparr>)"
| "execute db DeleteFromCourses =
     Some (True, db\<lparr>courses_table := [], prerequisites_table := []\<rparr>)"
| "execute db (InsertOrReplaceCourse courseNum title0) =
     (if \<not> sql_literal courseNum \<or> \<not> sql_literal title0 then None
      else if courseNum \<in> fst ` set (courses_table db)
      then Some (True, db\<lparr>courses_table :=
                       filter (\<lambda>row. fst row \<noteq> courseNum) (courses_table db)
                         @ [(courseNum, title0)],
                     prerequisites_table :=
                       filter (\<lambda>row. fst row \<noteq> courseNum) (prerequisites_table db)\<rparr>)
      else Some (True, db\<lparr>courses_table := courses_table db @ [(courseNum, title0)]\<rparr>))"
| "execute db (InsertPrerequisite courseNum prereq) =
     (if \<not> sql_literal courseNum \<or> \<not> sql_literal prereq then None
      else if (courseNum, prereq) \<in> set (prerequisites_table db) then Some (False, db)
      else if courseNum \<notin> fst ` set (courses_table db) then Some (False, db)
      else Some (True, db\<lparr>prerequisites_table :=
                       prerequisites_table db @ [(courseNum, prereq)]\<rparr>))"

text \<open>
  The inner loop over the remaining fields and the outer loop over the lines. Each body
  returns \<open>False\<close> where the source says \<^verbatim>\<open>return false\<close>, and the loop stops there.
\<close>

definition insertPrereq :: "database \<Rightarrow> string \<Rightarrow> string \<Rightarrow> (bool \<times> database) option" where
  "insertPrereq db courseNum prereq0 =
     (let prereq = normalizeCourseNumber prereq0
      in if prereq = [] then Some (True, db)
         else execute db (InsertPrerequisite courseNum prereq))"

fun insertPrereqs :: "database \<Rightarrow> string \<Rightarrow> string list \<Rightarrow> (bool \<times> database) option" where
  "insertPrereqs db courseNum [] = Some (True, db)"
| "insertPrereqs db courseNum (prereq0 # rest) =
     (case insertPrereq db courseNum prereq0 of
        None \<Rightarrow> None
      | Some (False, db') \<Rightarrow> Some (False, db')
      | Some (True, db') \<Rightarrow> insertPrereqs db' courseNum rest)"

definition loadLine_db :: "database \<Rightarrow> string \<Rightarrow> (bool \<times> database) option" where
  "loadLine_db db line0 =
     (let line = trim line0 in
      if line = [] then Some (True, db)
      else let (ok1, courseNum0, ss1) = getline (line, True) CHR '','' in
        if \<not> ok1 then Some (True, db)
        else let (ok2, title0, ss2) = getline ss1 CHR '','' in
          if \<not> ok2 then Some (True, db)
          else let courseNum = normalizeCourseNumber courseNum0;
                   title1 = trim title0
               in case execute db (InsertOrReplaceCourse courseNum title1) of
                    None \<Rightarrow> None
                  | Some (False, db') \<Rightarrow> Some (False, db')
                  | Some (True, db') \<Rightarrow> insertPrereqs db' courseNum (getlines ss2 CHR '',''))"

fun loadLines_db :: "database \<Rightarrow> string list \<Rightarrow> (bool \<times> database) option" where
  "loadLines_db db [] = Some (True, db)"
| "loadLines_db db (line0 # rest) =
     (case loadLine_db db line0 of
        None \<Rightarrow> None
      | Some (False, db') \<Rightarrow> Some (False, db')
      | Some (True, db') \<Rightarrow> loadLines_db db' rest)"

text \<open>The results of the two \<^verbatim>\<open>DELETE\<close> statements are ignored, as in the source.\<close>

definition loadCoursesFromCSV_db ::
    "filesystem \<Rightarrow> string \<Rightarrow> database \<Rightarrow> (bool \<times> database) option" where
  "loadCoursesFromCSV_db fs filename db =
     (case fs filename of
        None \<Rightarrow> Some (False, db)
      | Some content \<Rightarrow>
          (case execute db DeleteFromPrerequisites of
             None \<Rightarrow> None
           | Some (ok1, db1) \<Rightarrow>
               (case execute db1 DeleteFromCourses of
                  None \<Rightarrow> None
                | Some (ok2, db2) \<Rightarrow>
                    loadLines_db db2 (getlines (content, True) CHR 0x0A))))"

section \<open>Properties used to state the claims\<close>

text \<open>Joining strings with a separator between neighbours and none at the end.\<close>

fun join :: "string \<Rightarrow> string list \<Rightarrow> string" where
  "join sep [] = []"
| "join sep [x] = x"
| "join sep (x # y # ys) = x @ sep @ join sep (y # ys)"

text \<open>
  The ordering invariant of the tree: every identifier in the left subtree of a node is
  less than the node's identifier, every identifier in its right subtree is greater.
\<close>

fun bst_inv :: "node_ptr \<Rightarrow> bool" where
  "bst_inv nullptr = True"
| "bst_inv (Node d l r) =
     (bst_inv l \<and> bst_inv r
      \<and> list_all (\<lambda>c. courseNumber c < courseNumber d) (inOrder l)
      \<and> list_all (\<lambda>c. courseNumber d < courseNumber c) (inOrder r))"

text \<open>The public operations that change a \<^verbatim>\<open>CourseBST\<close>, starting from the empty tree.\<close>

datatype bst_op = Insert Course | Clear

fun apply_op :: "node_ptr \<Rightarrow> bst_op \<Rightarrow> node_ptr" where
  "apply_op root (Insert course) = insert_bst root course"
| "apply_op root Clear = clear_bst root"

definition run_ops :: "bst_op list \<Rightarrow> node_ptr" where
  "run_ops ops = foldl apply_op nullptr ops"

text \<open>
  The record that a sequence of operations leaves under a key: the one inserted last with
  exactly that identifier since the last \<^verbatim>\<open>clear\<close>, if any.
\<close>

fun current :: "Course option \<Rightarrow> string \<Rightarrow> bst_op \<Rightarrow> Course option" where
  "current r key Clear = None"
| "current r key (Insert c) = (if courseNumber c = key then Some c else r)"

definition inserted :: "bst_op list \<Rightarrow> string \<Rightarrow> Course option" where
  "inserted ops key = foldl (\<lambda>r. current r key) None ops"

text \<open>
  What the hash-map loader maintains: one entry per key, and every record stored under its
  own identifier.
\<close>

definition map_inv :: "course_map \<Rightarrow> bool" where
  "map_inv m = (distinct (map fst m) \<and> (\<forall>(k, c) \<in> set m. courseNumber c = k))"

text \<open>
  The identifier under which a loader stores a line, if it stores the line at all.
\<close>

definition stored_id :: "(string \<Rightarrow> Course option) \<Rightarrow> string \<Rightarrow> string option" where
  "stored_id parse line = map_option courseNumber (parse line)"

subsection \<open>Example inputs\<close>

definition example_content :: string where
  "example_content =
     ''CS101, Intro to CS,CS100'' @ [CHR 0x0A] @ ''CS100,Fundamentals'' @ [CHR 0x0A]
     @ ''no comma here'' @ [CHR 0x0A] @ '' cs101 ,Introduction, cs100 ,,cs050'' @ [CHR 0x0A]"

definition example_fs :: filesystem where
  "example_fs name = (if name = ''courses.csv'' then Some example_content else None)"

definition example_course :: "string \<Rightarrow> string \<Rightarrow> Course" where
  "example_course number name = \<lparr>courseNumber = number, title = name, prerequisites = []\<rparr>"

definition example_ops :: "bst_op list" where
  "example_ops =
     [Insert (example_course ''CS200'' ''Old''), Clear,
      Insert (example_course ''CS101'' ''Intro''), Insert (example_course ''CS100'' ''Basics''),
      Insert (example_course ''CS101'' ''Introduction'')]"

definition example_state :: "string \<Rightarrow> state_map" where
  "example_state input = \<lparr>courses = [], dataLoaded = False, cin = (input, True), cout = []\<rparr>"

definition example_db :: database where
  "example_db = \<lparr>courses_table = [(''OLD1'', ''Old course'')], prerequisites_table = []\<rparr>"

definition example_content_dup :: string where
  "example_content_dup =
     ''CS100,Fundamentals'' @ [CHR 0x0A] @ ''CS200,Data,CS100,cs100'' @ [CHR 0x0A]
     @ ''CS300,Algorithms'' @ [CHR 0x0A]"

definition example_fs_dup :: filesystem where
  "example_fs_dup name = (if name = ''courses.csv'' then Some example_content_dup else None)"

section \<open>Normalisation\<close>

subsection \<open>The index loops of trim compute the usual trimming\<close>

lemma trim_start_eq:
  "start \<le> length s \<Longrightarrow> trim_start s start = start + length (takeWhile isspace (drop start s))"
proof (induction s start rule: trim_start.induct)
  case (1 s start)
  show ?case
  proof (cases "start < length s \<and> isspace (s ! start)")
    case True
    then have d: "drop start s = s ! start # drop (Suc start) s"
      by (simp add: Cons_nth_drop_Suc)
    have "trim_start s start = trim_start s (Suc start)"
      using True by (subst trim_start.simps) simp
    also have "\<dots> = Suc start + length (takeWhile isspace (drop (Suc start) s))"
      using 1 True by simp
    finally show ?thesis using True by (simp add: d)
  next
    case False
    have r: "trim_start s start = start"
      using False by (subst trim_start.simps) auto
    have "takeWhile isspace (drop start s) = []"
    proof (cases "start < length s")
      case True
      with False have "\<not> isspace (s ! start)" by simp
      moreover from True have "drop start s = s ! start # drop (Suc start) s"
        by (simp add: Cons_nth_drop_Suc)
      ultimately show ?thesis by simp
    next
      case False
      then show ?thesis by simp
    qed
    with r show ?thesis by simp
  qed
qed

lemma take_drop_snoc:
  "start < e \<Longrightarrow> e \<le> length s \<Longrightarrow>
   take (e - start) (drop start s) = take (e - 1 - start) (drop start s) @ [s ! (e - 1)]"
proof -
  assume a: "start < e" "e \<le> length s"
  then have "e - 1 - start < length (drop start s)" by simp
  from take_Suc_conv_app_nth[OF this] a show ?thesis
    by (simp add: Suc_diff_Suc)
qed

lemma trim_end_eq:
  "start \<le> e \<Longrightarrow> e \<le> length s \<Longrightarrow>
   take (trim_end s start e - start) (drop start s)
     = rev (dropWhile isspace (rev (take (e - start) (drop start s))))"
proof (induction s start e rule: trim_end.induct)
  case (1 s start e)
  show ?case
  proof (cases "e > start \<and> isspace (s ! (e - 1))")
    case True
    have "trim_end s start e = trim_end s start (e - 1)"
      using True by (subst trim_end.simps) simp
    moreover have p1: "start \<le> e - 1" using True by arith
    moreover have p2: "e - 1 \<le> length s" using 1(3) by arith
    moreover have "take (trim_end s start (e - 1) - start) (drop start s)
        = rev (dropWhile isspace (rev (take (e - 1 - start) (drop start s))))"
      by (rule 1(1)[OF True p1 p2])
    ultimately show ?thesis
      using True 1(3) by (simp add: take_drop_snoc[of start e s])
  next
    case False
    have r: "trim_end s start e = e"
      using False by (subst trim_end.simps) auto
    show ?thesis
    proof (cases "e > start")
      case True
      with False have "\<not> isspace (s ! (e - 1))" by simp
      with True 1(3) r show ?thesis by (simp add: take_drop_snoc[of start e s])
    next
      case False
      with 1 r show ?thesis by simp
    qed
  qed
qed

lemma trim_eq: "trim s = rev (dropWhile isspace (rev (dropWhile isspace s)))"
proof -
  have st: "trim_start s 0 = length (takeWhile isspace s)"
    using trim_start_eq[of 0 s] by simp
  have le: "length (takeWhile isspace s) \<le> length s"
    by (rule length_takeWhile_le)
  show ?thesis
    unfolding trim_def Let_def substr_def st
    using trim_end_eq[OF le order_refl] by (simp add: dropWhile_eq_drop)
qed

subsection \<open>Upper-casing and whitespace do not interfere\<close>

lemma isspace_toupper: "isspace (toupper c) = isspace c"
proof (cases "97 \<le> (of_char c :: nat) \<and> (of_char c :: nat) \<le> 122")
  case True
  have a: "\<not> isspace c"
    using True by (auto simp: isspace_def)
  have "(of_char (toupper c) :: nat) = of_char c - 32"
    using True by (auto simp: toupper_def)
  then have "65 \<le> (of_char (toupper c) :: nat)" using True by arith
  then have "\<not> isspace (toupper c)" by (auto simp: isspace_def)
  with a show ?thesis by simp
next
  case False
  then show ?thesis by (auto simp: toupper_def)
qed

lemma toupper_idem: "toupper (toupper c) = toupper c"
proof (cases "97 \<le> (of_char c :: nat) \<and> (of_char c :: nat) \<le> 122")
  case True
  have "(of_char (toupper c) :: nat) = of_char c - 32"
    using True by (auto simp: toupper_def)
  then have "\<not> (97 \<le> (of_char (toupper c) :: nat))" using True by arith
  then show ?thesis by (subst (1) toupper_def) (simp add: Let_def)
next
  case False
  then show ?thesis by (auto simp: toupper_def)
qed

lemma dropWhile_rev_dropWhile:
  "dropWhile P (rev (dropWhile P (rev (dropWhile P s)))) = rev (dropWhile P (rev (dropWhile P s)))"
proof (cases "dropWhile P s")
  case Nil
  show ?thesis unfolding Nil by simp
next
  case (Cons a u)
  then have na: "\<not> P a" by (metis hd_dropWhile list.sel(1) list.distinct(1))
  have "dropWhile P (rev (a # u)) = dropWhile P (rev u) @ [a] \<or> dropWhile P (rev (a # u)) = [a]"
    by (simp add: dropWhile_append na)
  then show ?thesis using Cons na by auto
qed

lemma trim_idem: "trim (trim s) = trim s"
  by (simp add: trim_eq dropWhile_rev_dropWhile)

lemma trim_toUpper: "trim (toUpper s) = toUpper (trim s)"
proof -
  have c: "isspace \<circ> toupper = isspace" by (auto simp: isspace_toupper)
  show ?thesis
    by (simp add: trim_eq toUpper_def dropWhile_map rev_map c)
qed

lemma toUpper_idem: "toUpper (toUpper s) = toUpper s"
  by (simp add: toUpper_def toupper_idem)

text \<open>
  Claim C7. Normalising an identifier (trimming surrounding whitespace, then upper-casing
  the ASCII letters) is idempotent: for every string \<open>x\<close>, normalising the normalised
  string gives the normalised string again.
\<close>

theorem normalize_idempotent:
  "normalizeCourseNumber (normalizeCourseNumber x) = normalizeCourseNumber x"
  by (simp add: normalizeCourseNumber_def trim_toUpper trim_idem toUpper_idem)


section \<open>The binary search tree\<close>

lemma keys_insert_bst:
  "courseNumber ` set (inOrder (insert_bst t c)) = insert (courseNumber c) (courseNumber ` set (inOrder t))"
  by (induction t) auto

lemma bst_inv_insert: "bst_inv t \<Longrightarrow> bst_inv (insert_bst t c)"
proof (induction t)
  case nullptr
  then show ?case by simp
next
  case (Node d l r)
  have L: "list_all (\<lambda>x. courseNumber x < k) (inOrder u) \<longleftrightarrow> (\<forall>i \<in> courseNumber ` set (inOrder u). i < k)"
    for k u by (auto simp: list_all_iff)
  have R: "list_all (\<lambda>x. k < courseNumber x) (inOrder u) \<longleftrightarrow> (\<forall>i \<in> courseNumber ` set (inOrder u). k < i)"
    for k u by (auto simp: list_all_iff)
  from Node show ?case
    by (auto simp: L R keys_insert_bst)
qed

lemma search_insert_bst:
  "search_bst (insert_bst t c) key = (if key = courseNumber c then Some c else search_bst t key)"
  by (induction t) auto

lemma bst_inv_sorted: "bst_inv t \<Longrightarrow> sorted_wrt (<) (map courseNumber (inOrder t))"
proof (induction t)
  case nullptr
  then show ?case by simp
next
  case (Node d l r)
  then have "\<forall>x\<in>set (inOrder l). \<forall>y\<in>set (inOrder r). courseNumber x < courseNumber y"
    by (fastforce simp: list_all_iff)
  with Node show ?case
    by (auto simp: sorted_wrt_append list_all_iff)
qed

lemma bst_inv_run_ops: "bst_inv (run_ops ops)"
proof (induction ops rule: rev_induct)
  case Nil
  then show ?case by (simp add: run_ops_def)
next
  case (snoc op ops)
  then show ?case
    by (cases op) (simp_all add: run_ops_def bst_inv_insert clear_bst_def)
qed

lemma search_run_ops: "search_bst (run_ops ops) key = inserted ops key"
proof (induction ops rule: rev_induct)
  case Nil
  then show ?case by (simp add: run_ops_def inserted_def)
next
  case (snoc op ops)
  then show ?case
    by (cases op) (simp_all add: run_ops_def inserted_def search_insert_bst clear_bst_def)
qed

text \<open>
  Claim C10. In the binary-search-tree version, the tree produced by any sequence of
  insert and clear operations satisfies the strict ordering invariant; searching it for a
  key returns exactly the record inserted last under that identifier since the last clear
  (and nothing when there is none); and the in-order traversal visits the identifiers in
  strictly increasing order.
\<close>

theorem bst_ordering_invariant:
  "bst_inv (run_ops ops)
   \<and> search_bst (run_ops ops) key = inserted ops key
   \<and> sorted_wrt (<) (map courseNumber (inOrder (run_ops ops)))"
  by (simp add: bst_inv_run_ops search_run_ops bst_inv_sorted)

theorem bst_ordering_invariant_witness:
  "bst_inv (run_ops example_ops)
   \<and> search_bst (run_ops example_ops) ''CS101'' = Some (example_course ''CS101'' ''Introduction'')
   \<and> search_bst (run_ops example_ops) ''CS200'' = None
   \<and> map courseNumber (inOrder (run_ops example_ops)) = [''CS100'', ''CS101'']"
proof -
  have a: "inserted example_ops ''CS101'' = Some (example_course ''CS101'' ''Introduction'')"
    by code_simp
  have b: "inserted example_ops ''CS200'' = None"
    by code_simp
  have c: "map courseNumber (inOrder (run_ops example_ops)) = [''CS100'', ''CS101'']"
    by code_simp
  from bst_ordering_invariant[of example_ops "''CS101''"]
    bst_ordering_invariant[of example_ops "''CS200''"] a b c
  show ?thesis by simp
qed

lemma inOrderPrint_inOrder: "inOrderPrint t = concat (map courseLine (inOrder t))"
  by (induction t) simp_all

lemma foldl_insert_inv: "bst_inv t \<Longrightarrow> bst_inv (foldl insert_bst t cs)"
  by (induction cs arbitrary: t) (simp_all add: bst_inv_insert)

lemma foldl_insert_keys:
  "courseNumber ` set (inOrder (foldl insert_bst t cs))
     = courseNumber ` set (inOrder t) \<union> courseNumber ` set cs"
  by (induction cs arbitrary: t) (auto simp: keys_insert_bst)

lemma foldl_storeLine_bst:
  "foldl storeLine_bst t ls = foldl insert_bst t (List.map_filter parseLine_bst ls)"
  by (induction ls arbitrary: t) (auto simp: storeLine_bst_def List.map_filter_simps split: option.splits)

lemma bst_inv_length:
  assumes "bst_inv t"
  shows "length (inOrder t) = card (courseNumber ` set (inOrder t))"
proof -
  have "distinct (map courseNumber (inOrder t))"
    using bst_inv_sorted[OF assms] by (simp add: strict_sorted_iff)
  then have "card (set (map courseNumber (inOrder t))) = length (map courseNumber (inOrder t))"
    by (rule distinct_card)
  then show ?thesis by simp
qed

section \<open>The hash map\<close>

lemma set_update_cases:
  "(a, b) \<in> set (AList.update k v m) \<Longrightarrow> (a, b) = (k, v) \<or> (a, b) \<in> set m"
  by (induction m) (auto split: if_splits)

lemma map_inv_update: "map_inv m \<Longrightarrow> map_inv (AList.update (courseNumber c) c m)"
  unfolding map_inv_def
  by (auto simp: distinct_update dest!: set_update_cases)

lemma foldl_storeLine_map:
  "foldl storeLine_map m ls
     = foldl (\<lambda>m c. AList.update (courseNumber c) c m) m (List.map_filter parseLine_map ls)"
  by (induction ls arbitrary: m) (auto simp: storeLine_map_def List.map_filter_simps split: option.splits)

lemma foldl_update_inv:
  "map_inv m \<Longrightarrow> map_inv (foldl (\<lambda>m c. AList.update (courseNumber c) c m) m cs)"
  by (induction cs arbitrary: m) (simp_all add: map_inv_update)

lemma foldl_update_keys:
  "fst ` set (foldl (\<lambda>m c. AList.update (courseNumber c) c m) m cs)
     = fst ` set m \<union> courseNumber ` set cs"
  by (induction cs arbitrary: m) (auto simp: dom_update)

lemma those_map_of:
  "set ks \<subseteq> fst ` set m \<Longrightarrow> \<exists>cs. those (map (map_of m) ks) = Some cs \<and> length cs = length ks
     \<and> (\<forall>i < length ks. map_of m (ks ! i) = Some (cs ! i))"
proof (induction ks)
  case Nil
  then show ?case by simp
next
  case (Cons k ks)
  then obtain cs where cs: "those (map (map_of m) ks) = Some cs" "length cs = length ks"
    "\<forall>i < length ks. map_of m (ks ! i) = Some (cs ! i)" by auto
  from Cons.prems obtain c where c: "map_of m k = Some c"
    by (cases "map_of m k") (auto simp: map_of_eq_None_iff)
  show ?case
    using cs c by (auto simp: nth_Cons split: nat.splits)
qed

lemma all_sorted_map_Some:
  assumes "map_inv m"
  shows "\<exists>cs. all_sorted_map m = Some cs \<and> map courseNumber cs = sort (map fst m)"
proof -
  let ?ks = "sort (map fst m)"
  have "set ?ks \<subseteq> fst ` set m" by simp
  from those_map_of[OF this] obtain cs where cs: "those (map (map_of m) ?ks) = Some cs"
    "length cs = length ?ks" "\<forall>i < length ?ks. map_of m (?ks ! i) = Some (cs ! i)" by blast
  have "courseNumber (cs ! i) = ?ks ! i" if "i < length ?ks" for i
  proof -
    from cs(3) that have "map_of m (?ks ! i) = Some (cs ! i)" by blast
    then have "(?ks ! i, cs ! i) \<in> set m" by (rule map_of_SomeD)
    with assms show ?thesis by (auto simp: map_inv_def)
  qed
  then have "map courseNumber cs = ?ks"
    using cs(2) by (intro nth_equalityI) auto
  with cs(1) show ?thesis by (auto simp: all_sorted_map_def)
qed

lemma map_inv_load:
  "map_inv (foldl storeLine_map [] ls)"
proof -
  have "map_inv []" by (simp add: map_inv_def)
  then show ?thesis by (simp add: foldl_storeLine_map foldl_update_inv)
qed

lemma all_sorted_map_load:
  assumes "fs fileName = Some content"
  shows "\<exists>cs. all_sorted_map (snd (loadCoursesFromCsv_map fs fileName m0)) = Some cs
           \<and> printCourseList_map (snd (loadCoursesFromCsv_map fs fileName m0))
               = Some (concat (map courseLine cs))
           \<and> sorted (map courseNumber cs)
           \<and> length cs = card (courseNumber ` set (List.map_filter parseLine_map
                                   (getlines (content, True) CHR 0x0A)))"
proof -
  let ?ls = "getlines (content, True) CHR 0x0A"
  let ?m = "foldl storeLine_map [] ?ls"
  have m: "snd (loadCoursesFromCsv_map fs fileName m0) = ?m"
    using assms by (simp add: loadCoursesFromCsv_map_def)
  have inv: "map_inv ?m" by (rule map_inv_load)
  from all_sorted_map_Some[OF inv] obtain cs where cs: "all_sorted_map ?m = Some cs"
    "map courseNumber cs = sort (map fst ?m)" by blast
  have keys: "fst ` set ?m = courseNumber ` set (List.map_filter parseLine_map ?ls)"
    by (simp add: foldl_storeLine_map foldl_update_keys)
  have "length cs = length (map courseNumber cs)" by simp
  also have "\<dots> = length (map fst ?m)" by (simp add: cs(2))
  also have "\<dots> = card (set (map fst ?m))"
  proof -
    from inv have "distinct (map fst ?m)" by (simp add: map_inv_def)
    then show ?thesis by (rule distinct_card[symmetric])
  qed
  also have "\<dots> = card (courseNumber ` set (List.map_filter parseLine_map ?ls))"
    using keys by simp
  finally have len: "length cs = card (courseNumber ` set (List.map_filter parseLine_map ?ls))" .
  have "sorted (map courseNumber cs)" by (simp add: cs(2))
  with cs(1) len show ?thesis
    unfolding m by (auto simp: printCourseList_map_def)
qed

lemma inOrder_load_bst:
  assumes "fs fileName = Some content"
  shows "sorted (map courseNumber (inOrder (snd (loadCoursesFromCsv_bst fs fileName t0))))
         \<and> length (inOrder (snd (loadCoursesFromCsv_bst fs fileName t0)))
             = card (courseNumber ` set (List.map_filter parseLine_bst
                                   (getlines (content, True) CHR 0x0A)))"
proof -
  let ?cs = "List.map_filter parseLine_bst (getlines (content, True) CHR 0x0A)"
  let ?t = "foldl insert_bst nullptr ?cs"
  have t: "snd (loadCoursesFromCsv_bst fs fileName t0) = ?t"
    using assms by (simp add: loadCoursesFromCsv_bst_def clear_bst_def foldl_storeLine_bst)
  have inv: "bst_inv ?t" by (simp add: foldl_insert_inv)
  have "sorted_wrt (<) (map courseNumber (inOrder ?t))" by (rule bst_inv_sorted[OF inv])
  then have "sorted (map courseNumber (inOrder ?t))" by (rule strict_sorted_imp_sorted)
  moreover have "length (inOrder ?t) = card (courseNumber ` set ?cs)"
    using bst_inv_length[OF inv] by (simp add: foldl_insert_keys)
  ultimately show ?thesis unfolding t by simp
qed

text \<open>
  Claim C2. After a load, the sorted enumeration (the records \<^verbatim>\<open>printCourseList\<close>
  prints in the hash-map version, the in-order traversal in the tree version) is
  non-decreasing by identifier, and its length is the number of distinct normalised
  identifiers among the records the load inserted.
\<close>

theorem all_sorted_nondecreasing:
  assumes "fs fileName = Some content"
  shows "(\<exists>cs. all_sorted_map (snd (loadCoursesFromCsv_map fs fileName m0)) = Some cs
           \<and> printCourseList_map (snd (loadCoursesFromCsv_map fs fileName m0))
               = Some (concat (map courseLine cs))
           \<and> sorted (map courseNumber cs)
           \<and> length cs = card (courseNumber ` set (List.map_filter parseLine_map
                                   (getlines (content, True) CHR 0x0A))))
         \<and> inOrderPrint (snd (loadCoursesFromCsv_bst fs fileName t0))
             = concat (map courseLine (inOrder (snd (loadCoursesFromCsv_bst fs fileName t0))))
         \<and> sorted (map courseNumber (inOrder (snd (loadCoursesFromCsv_bst fs fileName t0))))
         \<and> length (inOrder (snd (loadCoursesFromCsv_bst fs fileName t0)))
             = card (courseNumber ` set (List.map_filter parseLine_bst
                                   (getlines (content, True) CHR 0x0A)))"
  using all_sorted_map_load[of fs fileName content m0, OF assms]
    inOrder_load_bst[of fs fileName content t0, OF assms]
  by (simp add: inOrderPrint_inOrder)

theorem all_sorted_nondecreasing_witness:
  "example_fs ''courses.csv'' = Some example_content
   \<and> (\<exists>cs. all_sorted_map (snd (loadCoursesFromCsv_map example_fs ''courses.csv'' [])) = Some cs
           \<and> printCourseList_map (snd (loadCoursesFromCsv_map example_fs ''courses.csv'' []))
               = Some (concat (map courseLine cs))
           \<and> sorted (map courseNumber cs)
           \<and> length cs = card (courseNumber ` set (List.map_filter parseLine_map
                                   (getlines (example_content, True) CHR 0x0A))))
   \<and> inOrderPrint (snd (loadCoursesFromCsv_bst example_fs ''courses.csv'' nullptr))
             = concat (map courseLine (inOrder (snd (loadCoursesFromCsv_bst example_fs ''courses.csv'' nullptr))))
   \<and> sorted (map courseNumber (inOrder (snd (loadCoursesFromCsv_bst example_fs ''courses.csv'' nullptr))))
   \<and> length (inOrder (snd (loadCoursesFromCsv_bst example_fs ''courses.csv'' nullptr)))
             = card (courseNumber ` set (List.map_filter parseLine_bst
                                   (getlines (example_content, True) CHR 0x0A)))
   \<and> map courseNumber (inOrder (snd (loadCoursesFromCsv_bst example_fs ''courses.csv'' nullptr)))
       = [''CS100'', ''CS101'']"
proof -
  have h: "example_fs ''courses.csv'' = Some example_content"
    by (simp add: example_fs_def)
  have v: "map courseNumber (inOrder (snd (loadCoursesFromCsv_bst example_fs ''courses.csv'' nullptr)))
       = [''CS100'', ''CS101'']"
    by code_simp
  from all_sorted_nondecreasing[of example_fs "''courses.csv''" example_content "[]" nullptr, OF h]
    h v show ?thesis
    by blast
qed


section \<open>Fields of a line\<close>

lemma dropWhile_append_keep:
  "\<not> P x \<Longrightarrow> dropWhile P (xs @ x # ys) = dropWhile P xs @ x # ys"
  by (induction xs) auto

lemma comma_not_space: "\<not> isspace CHR '',''"
  by (simp add: isspace_def)

lemma trim_with_comma:
  "trim (a @ CHR '','' # rest)
     = dropWhile isspace a @ CHR '','' # rev (dropWhile isspace (rev rest))"
  by (simp add: trim_eq dropWhile_append_keep comma_not_space)

lemma getline_first_field:
  assumes "CHR '','' \<notin> set a"
  shows "getline (trim (a @ CHR '','' # rest), True) CHR '',''
           = (True, dropWhile isspace a, (rev (dropWhile isspace (rev rest)), True))"
proof -
  have n: "CHR '','' \<notin> set (dropWhile isspace a)"
    using assms set_dropWhileD by fastforce
  have t: "takeWhile (\<lambda>c. c \<noteq> CHR '','') (dropWhile isspace a @ CHR '','' # r)
            = dropWhile isspace a" for r
    using n by (subst takeWhile_append2) auto
  have d: "dropWhile (\<lambda>c. c \<noteq> CHR '','') (dropWhile isspace a @ CHR '','' # r)
            = CHR '','' # r" for r
    using n by (subst dropWhile_append2) auto
  show ?thesis
    by (simp add: trim_with_comma getline_def t d)
qed

lemma trim_dropWhile: "trim (dropWhile isspace a) = trim a"
  by (simp add: trim_eq)

lemma parseLine_map_id:
  assumes "CHR '','' \<notin> set a" "parseLine_map (a @ CHR '','' # rest) = Some c"
  shows "courseNumber c = normalizeCourseNumber a"
  using assms(2)
  by (auto simp: parseLine_map_def getline_first_field[OF assms(1)] Let_def
      normalizeCourseNumber_def trim_dropWhile split: if_splits prod.splits)

lemma parseLine_bst_id:
  assumes "CHR '','' \<notin> set a" "parseLine_bst (a @ CHR '','' # rest) = Some c"
  shows "courseNumber c = normalizeCourseNumber a"
  using assms(2)
  by (auto simp: parseLine_bst_def getline_first_field[OF assms(1)] Let_def
      normalizeCourseNumber_def trim_dropWhile split: if_splits prod.splits)

lemma one_entry:
  "distinct (map f xs) \<Longrightarrow> k \<in> f ` set xs \<Longrightarrow> length (filter (\<lambda>x. f x = k) xs) = 1"
proof (induction xs)
  case Nil
  then show ?case by simp
next
  case (Cons x xs)
  show ?case
  proof (cases "f x = k")
    case True
    from Cons.prems(1) have "f x \<notin> f ` set xs" by simp
    with True have "\<forall>y \<in> set xs. f y \<noteq> k" by blast
    then have "filter (\<lambda>x. f x = k) xs = []" by (simp add: filter_empty_conv)
    with True show ?thesis by simp
  next
    case False
    with Cons show ?thesis by auto
  qed
qed

lemma map_of_storeLine_map:
  "map_of (storeLine_map m l) k
     = (if stored_id parseLine_map l = Some k then parseLine_map l else map_of m k)"
  by (cases "parseLine_map l") (auto simp: storeLine_map_def stored_id_def update_conv')

lemma map_of_foldl_storeLine_map:
  "\<forall>l \<in> set ls. stored_id parseLine_map l \<noteq> Some k \<Longrightarrow>
     map_of (foldl storeLine_map m ls) k = map_of m k"
  by (induction ls arbitrary: m) (simp_all add: map_of_storeLine_map)

lemma distinct_storeLine_map:
  "distinct (map fst m) \<Longrightarrow> distinct (map fst (storeLine_map m l))"
  by (cases "parseLine_map l") (simp_all add: storeLine_map_def distinct_update)

lemma distinct_foldl_storeLine_map:
  "distinct (map fst m) \<Longrightarrow> distinct (map fst (foldl storeLine_map m ls))"
  by (induction ls arbitrary: m) (simp_all add: distinct_storeLine_map)

lemma search_storeLine_bst:
  "search_bst (storeLine_bst t l) k
     = (if stored_id parseLine_bst l = Some k then parseLine_bst l else search_bst t k)"
  by (cases "parseLine_bst l") (auto simp: storeLine_bst_def stored_id_def search_insert_bst)

lemma search_foldl_storeLine_bst:
  "\<forall>l \<in> set ls. stored_id parseLine_bst l \<noteq> Some k \<Longrightarrow>
     search_bst (foldl storeLine_bst t ls) k = search_bst t k"
  by (induction ls arbitrary: t) (simp_all add: search_storeLine_bst)

lemma bst_inv_storeLine_bst: "bst_inv t \<Longrightarrow> bst_inv (storeLine_bst t l)"
  by (cases "parseLine_bst l") (simp_all add: storeLine_bst_def bst_inv_insert)

lemma bst_inv_foldl_storeLine_bst: "bst_inv t \<Longrightarrow> bst_inv (foldl storeLine_bst t ls)"
  by (induction ls arbitrary: t) (simp_all add: bst_inv_storeLine_bst)

lemma search_bst_Some:
  "search_bst t k = Some c \<Longrightarrow> c \<in> set (inOrder t) \<and> courseNumber c = k"
  by (induction t) (auto split: if_splits)

lemma later_line_wins_map:
  assumes "stored_id parseLine_map l2 = Some k" and "parseLine_map l2 = Some c2"
    and "distinct (map fst temp)"
    and "\<forall>l \<in> set post. stored_id parseLine_map l \<noteq> Some k"
  shows "map_of (foldl storeLine_map temp (pre @ l1 # mid @ l2 # post)) k = Some c2
       \<and> length (filter (\<lambda>entry. fst entry = k)
            (foldl storeLine_map temp (pre @ l1 # mid @ l2 # post))) = 1"
proof -
  let ?m = "foldl storeLine_map temp (pre @ l1 # mid @ l2 # post)"
  let ?before = "foldl storeLine_map temp (pre @ l1 # mid)"
  have split: "?m = foldl storeLine_map (storeLine_map ?before l2) post" by simp
  have found: "map_of ?m k = Some c2"
    unfolding split using assms(1,2)
    by (simp add: map_of_foldl_storeLine_map[OF assms(4)] map_of_storeLine_map)
  then have "(k, c2) \<in> set ?m" by (rule map_of_SomeD)
  then have "k \<in> fst ` set ?m" by force
  moreover have "distinct (map fst ?m)"
    by (rule distinct_foldl_storeLine_map[OF assms(3)])
  ultimately have "length (filter (\<lambda>entry. fst entry = k) ?m) = 1"
    by (simp add: one_entry)
  with found show ?thesis by simp
qed

lemma later_line_wins_bst:
  assumes "stored_id parseLine_bst l2 = Some k" and "parseLine_bst l2 = Some d2"
    and "bst_inv root"
    and "\<forall>l \<in> set post. stored_id parseLine_bst l \<noteq> Some k"
  shows "search_bst (foldl storeLine_bst root (pre @ l1 # mid @ l2 # post)) k = Some d2
       \<and> length (filter (\<lambda>c. courseNumber c = k)
            (inOrder (foldl storeLine_bst root (pre @ l1 # mid @ l2 # post)))) = 1"
proof -
  let ?t = "foldl storeLine_bst root (pre @ l1 # mid @ l2 # post)"
  let ?before = "foldl storeLine_bst root (pre @ l1 # mid)"
  have split: "?t = foldl storeLine_bst (storeLine_bst ?before l2) post" by simp
  have found: "search_bst ?t k = Some d2"
    unfolding split using assms(1,2)
    by (simp add: search_foldl_storeLine_bst[OF assms(4)] search_storeLine_bst)
  from search_bst_Some[OF this] have "k \<in> courseNumber ` set (inOrder ?t)" by force
  moreover have "bst_inv ?t" by (rule bst_inv_foldl_storeLine_bst[OF assms(3)])
  then have "distinct (map courseNumber (inOrder ?t))"
    using bst_inv_sorted by (simp add: strict_sorted_iff)
  ultimately have "length (filter (\<lambda>c. courseNumber c = k) (inOrder ?t)) = 1"
    by (simp add: one_entry)
  with found show ?thesis by simp
qed

text \<open>
  Claim C4. For every pair of records that a load inserts and whose identifier fields
  differ only in letter case or surrounding whitespace (their normalised identifiers are
  equal), the resulting catalog holds exactly one entry under the common normalised
  identifier, and that entry holds the data of the record inserted last. The two records
  come from the lines \<open>a,r1\<close> and \<open>b,r2\<close> of a file, in this order, with any lines before,
  between and after them; the second is the last one stored under that identifier (no
  line after it is stored under it). The catalog before the loop is any hash map with one
  entry per key, or any ordered tree.
\<close>

theorem last_write_wins:
  assumes "CHR '','' \<notin> set a" and "CHR '','' \<notin> set b"
    and "normalizeCourseNumber a = normalizeCourseNumber b"
  shows "(parseLine_map (a @ CHR '','' # r1) = Some c1
          \<and> parseLine_map (b @ CHR '','' # r2) = Some c2
          \<and> distinct (map fst temp)
          \<and> (\<forall>l \<in> set post. stored_id parseLine_map l \<noteq> Some (normalizeCourseNumber a))
          \<longrightarrow>
            courseNumber c1 = normalizeCourseNumber a
          \<and> courseNumber c2 = normalizeCourseNumber a
          \<and> map_of (foldl storeLine_map temp
                 (pre @ (a @ CHR '','' # r1) # mid @ (b @ CHR '','' # r2) # post))
               (normalizeCourseNumber a) = Some c2
          \<and> length (filter (\<lambda>entry. fst entry = normalizeCourseNumber a)
               (foldl storeLine_map temp
                 (pre @ (a @ CHR '','' # r1) # mid @ (b @ CHR '','' # r2) # post))) = 1)
       \<and> (parseLine_bst (a @ CHR '','' # r1) = Some d1
          \<and> parseLine_bst (b @ CHR '','' # r2) = Some d2
          \<and> bst_inv root
          \<and> (\<forall>l \<in> set post. stored_id parseLine_bst l \<noteq> Some (normalizeCourseNumber a))
          \<longrightarrow>
            courseNumber d1 = normalizeCourseNumber a
          \<and> courseNumber d2 = normalizeCourseNumber a
          \<and> search_bst (foldl storeLine_bst root
                 (pre @ (a @ CHR '','' # r1) # mid @ (b @ CHR '','' # r2) # post))
               (normalizeCourseNumber a) = Some d2
          \<and> length (filter (\<lambda>c. courseNumber c = normalizeCourseNumber a)
               (inOrder (foldl storeLine_bst root
                 (pre @ (a @ CHR '','' # r1) # mid @ (b @ CHR '','' # r2) # post)))) = 1)"
proof -
  let ?k = "normalizeCourseNumber a"
  have "courseNumber c1 = ?k \<and> courseNumber c2 = ?k
      \<and> map_of (foldl storeLine_map temp
             (pre @ (a @ CHR '','' # r1) # mid @ (b @ CHR '','' # r2) # post)) ?k = Some c2
      \<and> length (filter (\<lambda>entry. fst entry = ?k)
           (foldl storeLine_map temp
             (pre @ (a @ CHR '','' # r1) # mid @ (b @ CHR '','' # r2) # post))) = 1"
    if p: "parseLine_map (a @ CHR '','' # r1) = Some c1"
      "parseLine_map (b @ CHR '','' # r2) = Some c2"
      "distinct (map fst temp)"
      "\<forall>l \<in> set post. stored_id parseLine_map l \<noteq> Some ?k"
  proof -
    have k1: "courseNumber c1 = ?k" by (rule parseLine_map_id[OF assms(1) p(1)])
    have k2: "courseNumber c2 = ?k" using parseLine_map_id[OF assms(2) p(2)] assms(3) by simp
    have s2: "stored_id parseLine_map (b @ CHR '','' # r2) = Some ?k"
      using p(2) k2 by (simp add: stored_id_def)
    from later_line_wins_map[OF s2 p(2) p(3) p(4)] k1 k2 show ?thesis by simp
  qed
  moreover
  have "courseNumber d1 = ?k \<and> courseNumber d2 = ?k
      \<and> search_bst (foldl storeLine_bst root
             (pre @ (a @ CHR '','' # r1) # mid @ (b @ CHR '','' # r2) # post)) ?k = Some d2
      \<and> length (filter (\<lambda>c. courseNumber c = ?k)
           (inOrder (foldl storeLine_bst root
             (pre @ (a @ CHR '','' # r1) # mid @ (b @ CHR '','' # r2) # post)))) = 1"
    if p: "parseLine_bst (a @ CHR '','' # r1) = Some d1"
      "parseLine_bst (b @ CHR '','' # r2) = Some d2"
      "bst_inv root"
      "\<forall>l \<in> set post. stored_id parseLine_bst l \<noteq> Some ?k"
  proof -
    have k1: "courseNumber d1 = ?k" by (rule parseLine_bst_id[OF assms(1) p(1)])
    have k2: "courseNumber d2 = ?k" using parseLine_bst_id[OF assms(2) p(2)] assms(3) by simp
    have s2: "stored_id parseLine_bst (b @ CHR '','' # r2) = Some ?k"
      using p(2) k2 by (simp add: stored_id_def)
    from later_line_wins_bst[OF s2 p(2) p(3) p(4)] k1 k2 show ?thesis by simp
  qed
  ultimately show ?thesis by blast
qed

theorem last_write_wins_witness:
  "CHR '','' \<notin> set ''cs101'' \<and> CHR '','' \<notin> set '' CS101 ''
   \<and> normalizeCourseNumber ''cs101'' = normalizeCourseNumber '' CS101 ''
   \<and> parseLine_map (''cs101'' @ CHR '','' # ''Intro'') = Some (example_course ''CS101'' ''Intro'')
   \<and> parseLine_map ('' CS101 '' @ CHR '','' # ''Intro to CS'')
       = Some (example_course ''CS101'' ''Intro to CS'')
   \<and> map_of (foldl storeLine_map [(''CS101'', example_course ''CS101'' ''Before'')]
          ([''CS050,Basics''] @ (''cs101'' @ CHR '','' # ''Intro'')
             # [''CS200,Data'', ''Cs101,Middle''] @ ('' CS101 '' @ CHR '','' # ''Intro to CS'')
             # [''CS300,Algorithms'']))
          (normalizeCourseNumber ''cs101'')
       = Some (example_course ''CS101'' ''Intro to CS'')
   \<and> length (filter (\<lambda>entry. fst entry = normalizeCourseNumber ''cs101'')
          (foldl storeLine_map [(''CS101'', example_course ''CS101'' ''Before'')]
            ([''CS050,Basics''] @ (''cs101'' @ CHR '','' # ''Intro'')
               # [''CS200,Data'', ''Cs101,Middle''] @ ('' CS101 '' @ CHR '','' # ''Intro to CS'')
               # [''CS300,Algorithms'']))) = 1
   \<and> search_bst (foldl storeLine_bst (Node (example_course ''CS101'' ''Before'') nullptr nullptr)
          ([''CS050,Basics''] @ (''cs101'' @ CHR '','' # ''Intro'')
             # [''CS200,Data'', ''Cs101,Middle''] @ ('' CS101 '' @ CHR '','' # ''Intro to CS'')
             # [''CS300,Algorithms'']))
          (normalizeCourseNumber ''cs101'')
       = Some (example_course ''CS101'' ''Intro to CS'')
   \<and> length (filter (\<lambda>c. courseNumber c = normalizeCourseNumber ''cs101'')
          (inOrder (foldl storeLine_bst (Node (example_course ''CS101'' ''Before'') nullptr nullptr)
            ([''CS050,Basics''] @ (''cs101'' @ CHR '','' # ''Intro'')
               # [''CS200,Data'', ''Cs101,Middle''] @ ('' CS101 '' @ CHR '','' # ''Intro to CS'')
               # [''CS300,Algorithms''])))) = 1"
proof -
  have h1: "CHR '','' \<notin> set ''cs101''" by simp
  have h2: "CHR '','' \<notin> set '' CS101 ''" by simp
  have h3: "normalizeCourseNumber ''cs101'' = normalizeCourseNumber '' CS101 ''" by code_simp
  have m1: "parseLine_map (''cs101'' @ CHR '','' # ''Intro'') = Some (example_course ''CS101'' ''Intro'')"
    by code_simp
  have m2: "parseLine_map ('' CS101 '' @ CHR '','' # ''Intro to CS'')
       = Some (example_course ''CS101'' ''Intro to CS'')"
    by code_simp
  have m3: "distinct (map fst [(''CS101'', example_course ''CS101'' ''Before'')])" by simp
  have m4: "\<forall>l \<in> set [''CS300,Algorithms''].
      stored_id parseLine_map l \<noteq> Some (normalizeCourseNumber ''cs101'')"
    by code_simp
  have t1: "parseLine_bst (''cs101'' @ CHR '','' # ''Intro'') = Some (example_course ''CS101'' ''Intro'')"
    by code_simp
  have t2: "parseLine_bst ('' CS101 '' @ CHR '','' # ''Intro to CS'')
       = Some (example_course ''CS101'' ''Intro to CS'')"
    by code_simp
  have t3: "bst_inv (Node (example_course ''CS101'' ''Before'') nullptr nullptr)" by simp
  have t4: "\<forall>l \<in> set [''CS300,Algorithms''].
      stored_id parseLine_bst l \<noteq> Some (normalizeCourseNumber ''cs101'')"
    by code_simp
  from last_write_wins[OF h1 h2 h3, of "''Intro''" "example_course ''CS101'' ''Intro''"
      "''Intro to CS''" "example_course ''CS101'' ''Intro to CS''"
      "[(''CS101'', example_course ''CS101'' ''Before'')]" "[''CS300,Algorithms'']"
      "[''CS050,Basics'']" "[''CS200,Data'', ''Cs101,Middle'']"
      "example_course ''CS101'' ''Intro''" "example_course ''CS101'' ''Intro to CS''"
      "Node (example_course ''CS101'' ''Before'') nullptr nullptr"]
    h1 h2 h3 m1 m2 m3 m4 t1 t2 t3 t4
  show ?thesis by blast
qed


section \<open>Rejected lines\<close>

lemma parseLine_map_Some:
  assumes "parseLine_map line = Some c"
  shows "courseNumber c \<noteq> [] \<and> title c \<noteq> []"
  using assms
  by (auto simp: parseLine_map_def Let_def split: if_splits prod.splits)

lemma parseLine_map_empty_field:
  assumes "normalizeCourseNumber (fst (snd (getline (trim line, True) CHR '','' ))) = []
           \<or> trim (fst (snd (getline (snd (snd (getline (trim line, True) CHR '','' ))) CHR '','' ))) = []"
  shows "parseLine_map line = None"
  using assms
  by (auto simp: parseLine_map_def Let_def normalizeCourseNumber_def split: if_splits prod.splits)

lemma stored_map:
  "(k, c) \<in> set (foldl storeLine_map m ls) \<Longrightarrow>
     (k, c) \<in> set m \<or> (\<exists>l \<in> set ls. parseLine_map l = Some c \<and> k = courseNumber c)"
proof (induction ls arbitrary: m)
  case Nil
  then show ?case by simp
next
  case (Cons l ls)
  from Cons.IH[OF Cons.prems[simplified]] show ?case
    by (auto simp: storeLine_map_def split: option.splits dest!: set_update_cases)
qed

text \<open>
  Claim C3, as the hash-map version implements it. A line whose identifier field is empty
  after normalisation, or whose title field is empty after trimming, is skipped and stores
  nothing; so every record that a load of the hash-map version stores has a non-empty
  identifier, under which it is stored, and a non-empty title.
\<close>

theorem empty_fields_rejected_map:
  "(normalizeCourseNumber (fst (snd (getline (trim line, True) CHR '','' ))) = []
     \<or> trim (fst (snd (getline (snd (snd (getline (trim line, True) CHR '','' ))) CHR '','' ))) = []
    \<longrightarrow> parseLine_map line = None \<and> storeLine_map temp line = temp)
   \<and> (fs fileName = Some content
        \<and> (k, c) \<in> set (snd (loadCoursesFromCsv_map fs fileName coursesOut))
    \<longrightarrow> k = courseNumber c \<and> courseNumber c \<noteq> [] \<and> title c \<noteq> [])"
proof -
  have "k = courseNumber c \<and> courseNumber c \<noteq> [] \<and> title c \<noteq> []"
    if "fs fileName = Some content"
      "(k, c) \<in> set (snd (loadCoursesFromCsv_map fs fileName coursesOut))"
  proof -
    from that have "(k, c) \<in> set (foldl storeLine_map [] (getlines (content, True) CHR 0x0A))"
      by (simp add: loadCoursesFromCsv_map_def)
    from stored_map[OF this] obtain l where "parseLine_map l = Some c" "k = courseNumber c"
      by auto
    with parseLine_map_Some show ?thesis by blast
  qed
  then show ?thesis
    using parseLine_map_empty_field[of line]
    by (auto simp: storeLine_map_def)
qed

theorem empty_fields_rejected_map_witness:
  "normalizeCourseNumber (fst (snd (getline (trim ''  ,Intro'', True) CHR '','' ))) = []
   \<and> parseLine_map ''  ,Intro'' = None
   \<and> storeLine_map [] ''  ,Intro'' = []
   \<and> example_fs ''courses.csv'' = Some example_content
   \<and> (''CS100'', example_course ''CS100'' ''Fundamentals'')
       \<in> set (snd (loadCoursesFromCsv_map example_fs ''courses.csv'' []))
   \<and> courseNumber (example_course ''CS100'' ''Fundamentals'') \<noteq> []
   \<and> title (example_course ''CS100'' ''Fundamentals'') \<noteq> []"
proof -
  have h1: "normalizeCourseNumber (fst (snd (getline (trim ''  ,Intro'', True) CHR '','' ))) = []"
    by code_simp
  have h2: "example_fs ''courses.csv'' = Some example_content"
    by (simp add: example_fs_def)
  have h3: "(''CS100'', example_course ''CS100'' ''Fundamentals'')
       \<in> set (snd (loadCoursesFromCsv_map example_fs ''courses.csv'' []))"
    by code_simp
  from empty_fields_rejected_map[of "''  ,Intro''" "[]" example_fs "''courses.csv''"
      example_content "''CS100''" "example_course ''CS100'' ''Fundamentals''" "[]"] h1 h2 h3
  show ?thesis by blast
qed

text \<open>
  The tree version has no such check: the line \<open>,Intro\<close> is stored under the empty
  identifier.
\<close>

theorem empty_identifier_stored_bst:
  "normalizeCourseNumber (fst (snd (getline (trim '',Intro'', True) CHR '','' ))) = []
   \<and> parseLine_bst '',Intro'' = Some \<lparr>courseNumber = [], title = ''Intro'', prerequisites = []\<rparr>
   \<and> loadCoursesFromCsv_bst (\<lambda>name. Some '',Intro'') ''courses.csv'' nullptr
       = (True, Node \<lparr>courseNumber = [], title = ''Intro'', prerequisites = []\<rparr> nullptr nullptr)"
  by code_simp

section \<open>Short lines\<close>

lemma set_trim: "set (trim s) \<subseteq> set s"
proof -
  have "set (trim s) \<subseteq> set (dropWhile isspace s)"
    unfolding trim_eq using set_dropWhileD[of _ isspace "rev (dropWhile isspace s)"] by auto
  also have "\<dots> \<subseteq> set s" using set_dropWhileD by fastforce
  finally show ?thesis .
qed

lemma getline_no_delim:
  assumes "delim \<notin> set s"
  shows "getline (s, True) delim = (s \<noteq> [], s, ([], False))"
proof -
  from assms have tw: "takeWhile (\<lambda>c. c \<noteq> delim) s = s"
    by (auto simp: takeWhile_eq_all_conv)
  from assms have dw: "dropWhile (\<lambda>c. c \<noteq> delim) s = []" by auto
  show ?thesis by (simp add: getline_def Let_def tw dw)
qed

lemma getline_not_good: "getline (s, False) delim = (False, [], (s, False))"
  by (simp add: getline_def)

lemma short_line_map:
  assumes "CHR '','' \<notin> set line"
  shows "parseLine_map line = None"
proof -
  from assms set_trim have "CHR '','' \<notin> set (trim line)" by blast
  from getline_no_delim[OF this] show ?thesis
    by (simp add: parseLine_map_def Let_def getline_not_good)
qed

lemma short_line_bst:
  assumes "CHR '','' \<notin> set line"
  shows "parseLine_bst line = None"
proof -
  from assms set_trim have "CHR '','' \<notin> set (trim line)" by blast
  from getline_no_delim[OF this] show ?thesis
    by (simp add: parseLine_bst_def Let_def getline_not_good)
qed

text \<open>
  Claim C6, for the hash-map and the tree version. A line without a comma (fewer than two
  comma-separated fields) is skipped and stores nothing, and a load whose file opened
  reports success whatever lines the file holds.
\<close>

theorem short_lines_skipped:
  "(CHR '','' \<notin> set line \<longrightarrow>
      parseLine_map line = None \<and> storeLine_map temp line = temp
      \<and> parseLine_bst line = None \<and> storeLine_bst root line = root)
   \<and> (fs fileName = Some content \<longrightarrow>
      fst (loadCoursesFromCsv_map fs fileName coursesOut)
      \<and> fst (loadCoursesFromCsv_bst fs fileName bstOut))"
  by (simp add: short_line_map short_line_bst storeLine_map_def storeLine_bst_def
      loadCoursesFromCsv_map_def loadCoursesFromCsv_bst_def)

theorem short_lines_skipped_witness:
  "CHR '','' \<notin> set ''no comma here''
   \<and> parseLine_map ''no comma here'' = None \<and> storeLine_map [] ''no comma here'' = []
   \<and> parseLine_bst ''no comma here'' = None
   \<and> storeLine_bst nullptr ''no comma here'' = nullptr
   \<and> example_fs ''courses.csv'' = Some example_content
   \<and> fst (loadCoursesFromCsv_map example_fs ''courses.csv'' [])
   \<and> fst (loadCoursesFromCsv_bst example_fs ''courses.csv'' nullptr)"
proof -
  have h1: "CHR '','' \<notin> set ''no comma here''" by simp
  have h2: "example_fs ''courses.csv'' = Some example_content"
    by (simp add: example_fs_def)
  from short_lines_skipped[of "''no comma here''" "[]" nullptr example_fs "''courses.csv''"
      example_content "[]" nullptr] h1 h2
  show ?thesis by blast
qed

text \<open>
  The list version stores a record for every line: a line without a comma becomes a
  record with that line as identifier and an empty title.
\<close>

theorem short_line_stored_list:
  "CHR '','' \<notin> set ''CS101''
   \<and> parseFile (''CS101'' @ [CHR 0x0A], True)
       = [\<lparr>courseNumber = ''CS101'', title = [], prerequisites = []\<rparr>]"
  by code_simp

section \<open>Detail output\<close>

lemma printPrerequisites_join: "printPrerequisites ps i = join '', '' (drop i ps)"
proof (induction ps i rule: printPrerequisites.induct)
  case (1 ps i)
  show ?case
  proof (cases "i < length ps")
    case True
    then have d: "drop i ps = ps ! i # drop (Suc i) ps" by (simp add: Cons_nth_drop_Suc)
    show ?thesis
    proof (cases "i + 1 < length ps")
      case t: True
      then have d2: "drop (Suc i) ps = ps ! (Suc i) # drop (Suc (Suc i)) ps"
        by (simp add: Cons_nth_drop_Suc)
      from 1[OF True] True t show ?thesis
        by (subst printPrerequisites.simps) (simp add: d d2)
    next
      case False
      with True have "drop (Suc i) ps = []" by simp
      with 1[OF True] True False show ?thesis
        by (subst printPrerequisites.simps) (simp add: d)
    qed
  next
    case False
    then show ?thesis by (subst printPrerequisites.simps) simp
  qed
qed

lemma printDetails_join:
  "printDetails c = courseNumber c @ '', '' @ title c @ [CHR 0x0A] @ ''Prerequisites: ''
     @ (if prerequisites c = [] then ''None'' else join '', '' (prerequisites c)) @ [CHR 0x0A]"
  by (simp add: printDetails_def printPrerequisites_join)

lemma searchCourse_find:
  "find (\<lambda>course. courseNumber course = key) courseList = Some c \<Longrightarrow>
     searchCourse key courseList
       = courseNumber c @ '', '' @ title c @ [CHR 0x0A] @ ''Prerequisites: ''
         @ (if prerequisites c = [] then ''None''
            else concat (map (\<lambda>prereq. prereq @ '' '') (prerequisites c))) @ [CHR 0x0A]"
  by (induction courseList) (auto split: if_splits)

text \<open>
  Claim C5, for each version's own format. For every record that the lookup finds, the
  hash-map and the tree version print the line \<open>identifier, title\<close> and then
  \<open>Prerequisites: \<close> followed by \<open>None\<close> when there are no prerequisites and otherwise by
  the prerequisite identifiers joined with a comma and a space, with no separator at the
  end. The list version, for the first record of the list with the requested identifier,
  wherever it stands, prints the same first line and \<open>None\<close>, but otherwise writes every
  prerequisite followed by one space.
\<close>

theorem detail_format:
  "(map_of courses0 (normalizeCourseNumber key) = Some c \<longrightarrow>
      printCourseDetails_map courses0 key
        = courseNumber c @ '', '' @ title c @ [CHR 0x0A] @ ''Prerequisites: ''
          @ (if prerequisites c = [] then ''None'' else join '', '' (prerequisites c)) @ [CHR 0x0A])
   \<and> (search_bst root (normalizeCourseNumber key) = Some c \<longrightarrow>
      printCourseDetails_bst root key
        = courseNumber c @ '', '' @ title c @ [CHR 0x0A] @ ''Prerequisites: ''
          @ (if prerequisites c = [] then ''None'' else join '', '' (prerequisites c)) @ [CHR 0x0A])
   \<and> (find (\<lambda>course. courseNumber course = key) courseList = Some c \<longrightarrow>
      searchCourse key courseList
        = courseNumber c @ '', '' @ title c @ [CHR 0x0A] @ ''Prerequisites: ''
          @ (if prerequisites c = [] then ''None''
             else concat (map (\<lambda>prereq. prereq @ '' '') (prerequisites c))) @ [CHR 0x0A])"
  using searchCourse_find[of key courseList c]
  by (simp add: printCourseDetails_map_def printCourseDetails_bst_def printDetails_join
      normalizeCourseNumber_def)

theorem detail_format_witness:
  "map_of (snd (loadCoursesFromCsv_map example_fs ''courses.csv'' [])) (normalizeCourseNumber '' cs101'')
     = Some \<lparr>courseNumber = ''CS101'', title = ''Introduction'', prerequisites = [''CS100'', ''CS050'']\<rparr>
   \<and> printCourseDetails_map (snd (loadCoursesFromCsv_map example_fs ''courses.csv'' [])) '' cs101''
     = ''CS101, Introduction'' @ [CHR 0x0A] @ ''Prerequisites: CS100, CS050'' @ [CHR 0x0A]
   \<and> search_bst (snd (loadCoursesFromCsv_bst example_fs ''courses.csv'' nullptr)) (normalizeCourseNumber '' cs101'')
     = Some \<lparr>courseNumber = ''CS101'', title = ''Introduction'', prerequisites = [''CS100'', ''CS050'']\<rparr>
   \<and> printCourseDetails_bst (snd (loadCoursesFromCsv_bst example_fs ''courses.csv'' nullptr)) '' cs101''
     = ''CS101, Introduction'' @ [CHR 0x0A] @ ''Prerequisites: CS100, CS050'' @ [CHR 0x0A]
   \<and> find (\<lambda>course. courseNumber course = ''CS100'') (parseFile (example_content, True))
     = Some (example_course ''CS100'' ''Fundamentals'')
   \<and> searchCourse ''CS100'' (parseFile (example_content, True))
     = ''CS100, Fundamentals'' @ [CHR 0x0A] @ ''Prerequisites: None'' @ [CHR 0x0A]
   \<and> find (\<lambda>course. courseNumber course = '' cs101 '') (parseFile (example_content, True))
     = Some \<lparr>courseNumber = '' cs101 '', title = ''Introduction'',
             prerequisites = ['' cs100 '', [], ''cs050'']\<rparr>
   \<and> searchCourse '' cs101 '' (parseFile (example_content, True))
     = '' cs101 , Introduction'' @ [CHR 0x0A] @ ''Prerequisites:  cs100   cs050 '' @ [CHR 0x0A]"
proof -
  let ?c = "\<lparr>courseNumber = ''CS101'', title = ''Introduction'', prerequisites = [''CS100'', ''CS050'']\<rparr>"
  let ?d = "\<lparr>courseNumber = '' cs101 '', title = ''Introduction'',
             prerequisites = ['' cs100 '', [], ''cs050'']\<rparr>"
  have h1: "map_of (snd (loadCoursesFromCsv_map example_fs ''courses.csv'' []))
      (normalizeCourseNumber '' cs101'') = Some ?c"
    by code_simp
  have h2: "search_bst (snd (loadCoursesFromCsv_bst example_fs ''courses.csv'' nullptr))
      (normalizeCourseNumber '' cs101'') = Some ?c"
    by code_simp
  have h3: "find (\<lambda>course. courseNumber course = ''CS100'') (parseFile (example_content, True))
     = Some (example_course ''CS100'' ''Fundamentals'')"
    by code_simp
  have h4: "find (\<lambda>course. courseNumber course = '' cs101 '') (parseFile (example_content, True))
     = Some ?d"
    by code_simp
  from detail_format[of "snd (loadCoursesFromCsv_map example_fs ''courses.csv'' [])" "'' cs101''" ?c
      "snd (loadCoursesFromCsv_bst example_fs ''courses.csv'' nullptr)" "[]"] h1 h2
  have a: "printCourseDetails_map (snd (loadCoursesFromCsv_map example_fs ''courses.csv'' [])) '' cs101''
     = ''CS101, Introduction'' @ [CHR 0x0A] @ ''Prerequisites: CS100, CS050'' @ [CHR 0x0A]"
    and b: "printCourseDetails_bst (snd (loadCoursesFromCsv_bst example_fs ''courses.csv'' nullptr)) '' cs101''
     = ''CS101, Introduction'' @ [CHR 0x0A] @ ''Prerequisites: CS100, CS050'' @ [CHR 0x0A]"
    by simp_all
  from detail_format[of "[]" "''CS100''" "example_course ''CS100'' ''Fundamentals''" nullptr
      "parseFile (example_content, True)"] h3
  have c: "searchCourse ''CS100'' (parseFile (example_content, True))
     = ''CS100, Fundamentals'' @ [CHR 0x0A] @ ''Prerequisites: None'' @ [CHR 0x0A]"
    by (simp add: example_course_def)
  from detail_format[of "[]" "'' cs101 ''" ?d nullptr "parseFile (example_content, True)"] h4
  have d: "searchCourse '' cs101 '' (parseFile (example_content, True))
     = '' cs101 , Introduction'' @ [CHR 0x0A] @ ''Prerequisites:  cs100   cs050 '' @ [CHR 0x0A]"
    by simp
  from h1 h2 h3 h4 a b c d show ?thesis by blast
qed

text \<open>
  In the list version the prerequisites are not joined with a comma and a space: each is
  followed by one space, also the last.
\<close>

theorem detail_format_list_counterexample:
  "searchCourse ''CS200'' [\<lparr>courseNumber = ''CS200'', title = ''Data'', prerequisites = [''CS100'', ''CS101'']\<rparr>]
     = ''CS200, Data'' @ [CHR 0x0A] @ ''Prerequisites: CS100 CS101 '' @ [CHR 0x0A]
   \<and> searchCourse ''CS200'' [\<lparr>courseNumber = ''CS200'', title = ''Data'', prerequisites = [''CS100'', ''CS101'']\<rparr>]
     \<noteq> ''CS200, Data'' @ [CHR 0x0A] @ ''Prerequisites: '' @ join '', '' [''CS100'', ''CS101''] @ [CHR 0x0A]"
  by code_simp

section \<open>Loading twice\<close>

text \<open>
  Claim C8. Loading the same source twice in succession gives the same result, and so the
  same catalog, as loading it once: the outcome of a load whose file opens does not depend
  on the catalog before it.
\<close>

theorem load_twice:
  "loadCoursesFromCsv_map fs fileName (snd (loadCoursesFromCsv_map fs fileName coursesOut))
     = loadCoursesFromCsv_map fs fileName coursesOut
   \<and> loadCoursesFromCsv_bst fs fileName (snd (loadCoursesFromCsv_bst fs fileName bstOut))
     = loadCoursesFromCsv_bst fs fileName bstOut"
  by (cases "fs fileName") (simp_all add: loadCoursesFromCsv_map_def loadCoursesFromCsv_bst_def clear_bst_def)


theorem load_twice_witness:
  "loadCoursesFromCsv_map example_fs ''courses.csv''
       (snd (loadCoursesFromCsv_map example_fs ''courses.csv'' []))
     = loadCoursesFromCsv_map example_fs ''courses.csv'' []
   \<and> loadCoursesFromCsv_bst example_fs ''courses.csv''
       (snd (loadCoursesFromCsv_bst example_fs ''courses.csv'' nullptr))
     = loadCoursesFromCsv_bst example_fs ''courses.csv'' nullptr
   \<and> fst (loadCoursesFromCsv_map example_fs ''courses.csv'' [])"
proof -
  have "fst (loadCoursesFromCsv_map example_fs ''courses.csv'' [])"
    by (simp add: loadCoursesFromCsv_map_def example_fs_def)
  with load_twice[of example_fs "''courses.csv''" "[]" nullptr] show ?thesis by blast
qed



section \<open>The menu loop\<close>

lemma printCourseList_map_total: "\<exists>listing. printCourseList_map m = Some listing"
proof -
  have "set (sort (map fst m)) \<subseteq> fst ` set m" by simp
  from those_map_of[OF this] show ?thesis
    by (auto simp: printCourseList_map_def all_sorted_map_def)
qed

lemma main_iteration_map_continue:
  assumes "fst (displayMenu (cin st)) \<noteq> 9"
  shows "\<exists>st'. main_iteration_map fs st = Continue st'"
proof -
  obtain choice cin1 out1 where d: "displayMenu (cin st) = (choice, cin1, out1)"
    by (cases "displayMenu (cin st)") auto
  with assms have c: "choice \<noteq> 9" by simp
  obtain ok line cin2 where g: "getline cin1 CHR 0x0A = (ok, line, cin2)"
    by (cases "getline cin1 CHR 0x0A") auto
  obtain loaded courses' where l: "loadCoursesFromCsv_map fs line (courses st) = (loaded, courses')"
    by (cases "loadCoursesFromCsv_map fs line (courses st)") auto
  obtain listing where p: "printCourseList_map (courses st) = Some listing"
    using printCourseList_map_total by blast
  show ?thesis
    using c by (simp add: main_iteration_map_def d g l p Let_def)
qed

lemma main_iteration_map_return:
  assumes "fst (displayMenu (cin st)) = 9"
  shows "\<exists>st'. main_iteration_map fs st = Return 0 st'"
proof -
  obtain choice cin1 out1 where d: "displayMenu (cin st) = (choice, cin1, out1)"
    by (cases "displayMenu (cin st)") auto
  with assms have c: "choice = 9" by simp
  show ?thesis
    by (simp add: main_iteration_map_def d c Let_def)
qed

text \<open>
  Claim C9, for the versions it holds in. In the hash-map version no error ends the
  process: whatever the input, the file system and the catalog, a pass through the menu
  loop whose choice is not 9 goes on to the next pass (a file that cannot be opened, a
  malformed line and an absent key included), and choice 9 returns from \<^verbatim>\<open>main\<close> with
  status 0. In the list version, loading a file that cannot be opened ends the process with
  status 1.
\<close>

theorem errors_return_to_menu:
  "(fst (displayMenu (cin st)) \<noteq> 9 \<longrightarrow> (\<exists>st'. main_iteration_map fs st = Continue st'))
   \<and> (fst (displayMenu (cin st)) = 9 \<longrightarrow> (\<exists>st'. main_iteration_map fs st = Return 0 st'))
   \<and> (fs name = None \<longrightarrow> main_load_list fs name = Inl 1)"
  using main_iteration_map_continue[of st fs] main_iteration_map_return[of st fs]
  by (simp add: main_load_list_def openFile_def)

theorem errors_return_to_menu_witness:
  "fst (displayMenu (cin (example_state (''1'' @ [CHR 0x0A] @ ''missing.csv'' @ [CHR 0x0A])))) = 1
   \<and> (\<exists>st'. main_iteration_map example_fs
              (example_state (''1'' @ [CHR 0x0A] @ ''missing.csv'' @ [CHR 0x0A])) = Continue st')
   \<and> fst (displayMenu (cin (example_state ''9''))) = 9
   \<and> (\<exists>st'. main_iteration_map example_fs (example_state ''9'') = Return 0 st')
   \<and> example_fs ''missing.csv'' = None
   \<and> main_load_list example_fs ''missing.csv'' = Inl 1"
proof -
  have h1: "fst (displayMenu (cin (example_state (''1'' @ [CHR 0x0A] @ ''missing.csv'' @ [CHR 0x0A])))) = 1"
    by code_simp
  have h2: "fst (displayMenu (cin (example_state ''9''))) = 9"
    by code_simp
  have h3: "example_fs ''missing.csv'' = None"
    by (simp add: example_fs_def)
  from errors_return_to_menu[of "example_state (''1'' @ [CHR 0x0A] @ ''missing.csv'' @ [CHR 0x0A])"
      example_fs "''missing.csv''"] h1 h3
  have a: "\<exists>st'. main_iteration_map example_fs
              (example_state (''1'' @ [CHR 0x0A] @ ''missing.csv'' @ [CHR 0x0A])) = Continue st'"
    and c: "main_load_list example_fs ''missing.csv'' = Inl 1"
    by simp_all
  from errors_return_to_menu[of "example_state ''9''" example_fs "''missing.csv''"] h2
  have b: "\<exists>st'. main_iteration_map example_fs (example_state ''9'') = Return 0 st'"
    by simp
  from h1 h2 h3 a b c show ?thesis by blast
qed

text \<open>
  In the list version a source that cannot be opened does end the process: \<^verbatim>\<open>openFile\<close>
  calls \<^verbatim>\<open>exit(1)\<close>.
\<close>

theorem source_not_found_exits_list:
  "example_fs ''missing.csv'' = None \<and> main_load_list example_fs ''missing.csv'' = Inl 1"
  by code_simp

section \<open>Failed loads\<close>

text \<open>
  Claim C1, for the failure that every version handles. A load whose source cannot be
  opened reports failure and leaves the catalog as it was, in the hash-map, the tree and
  the SQLite version. In the hash-map and the tree version this is the only way a load
  fails, so after a failed load the catalog is the one before the call.
\<close>

theorem failed_load_keeps_catalog:
  "(fs fileName = None \<longrightarrow>
      loadCoursesFromCsv_map fs fileName coursesOut = (False, coursesOut)
      \<and> loadCoursesFromCsv_bst fs fileName bstOut = (False, bstOut)
      \<and> loadCoursesFromCSV_db fs fileName db = Some (False, db))
   \<and> (\<not> fst (loadCoursesFromCsv_map fs fileName coursesOut) \<longrightarrow>
      fs fileName = None \<and> snd (loadCoursesFromCsv_map fs fileName coursesOut) = coursesOut)
   \<and> (\<not> fst (loadCoursesFromCsv_bst fs fileName bstOut) \<longrightarrow>
      fs fileName = None \<and> snd (loadCoursesFromCsv_bst fs fileName bstOut) = bstOut)"
  by (cases "fs fileName")
    (simp_all add: loadCoursesFromCsv_map_def loadCoursesFromCsv_bst_def loadCoursesFromCSV_db_def)


theorem failed_load_keeps_catalog_witness:
  "example_fs ''missing.csv'' = None
   \<and> loadCoursesFromCsv_map example_fs ''missing.csv''
         [(''CS100'', example_course ''CS100'' ''Fundamentals'')]
       = (False, [(''CS100'', example_course ''CS100'' ''Fundamentals'')])
   \<and> loadCoursesFromCsv_bst example_fs ''missing.csv''
         (Node (example_course ''CS100'' ''Fundamentals'') nullptr nullptr)
       = (False, Node (example_course ''CS100'' ''Fundamentals'') nullptr nullptr)
   \<and> loadCoursesFromCSV_db example_fs ''missing.csv'' example_db = Some (False, example_db)
   \<and> \<not> fst (loadCoursesFromCsv_map example_fs ''missing.csv''
         [(''CS100'', example_course ''CS100'' ''Fundamentals'')])
   \<and> \<not> fst (loadCoursesFromCsv_bst example_fs ''missing.csv''
         (Node (example_course ''CS100'' ''Fundamentals'') nullptr nullptr))"
proof -
  have h: "example_fs ''missing.csv'' = None"
    by (simp add: example_fs_def)
  from failed_load_keeps_catalog[of example_fs "''missing.csv''"
      "[(''CS100'', example_course ''CS100'' ''Fundamentals'')]"
      "Node (example_course ''CS100'' ''Fundamentals'') nullptr nullptr" example_db] h
  show ?thesis by simp
qed

text \<open>
  The SQLite version can fail after the file has opened, when SQLite rejects a statement.
  Here the second line names the prerequisite \<open>CS100\<close> twice, and the second insertion
  of the pair violates the primary key of \<^verbatim>\<open>prerequisites\<close>. The load reports failure;
  the rows from before the load are gone, and of the three records of the file the first
  two are in the database.
\<close>

theorem failed_load_partial_db:
  "example_fs_dup ''courses.csv'' = Some example_content_dup
   \<and> loadCoursesFromCSV_db example_fs_dup ''courses.csv'' example_db
       = Some (False, \<lparr>courses_table = [(''CS100'', ''Fundamentals''), (''CS200'', ''Data'')],
                       prerequisites_table = [(''CS200'', ''CS100'')]\<rparr>)
   \<and> loadCoursesFromCSV_db example_fs_dup ''courses.csv'' example_db \<noteq> Some (False, example_db)"
  by code_simp

end
